theory Spec2Isabelle
  imports Main
begin

section \<open>Exceptions\<close>

text \<open>
  The exception classes that the address book program raises or catches; \<open>OtherError\<close>
  is any other exception, with its message. A computation that may raise has type
  \<open>error + 'a\<close>, with \<open>Inl\<close> for the raised exception.
\<close>

datatype error = ValueError | IndexError | KeyError | OtherError string

section \<open>Strings\<close>

text \<open>
  A Python \<open>str\<close> is a sequence of code points. The model covers the code points
  U+0000 to U+00FF: a \<open>char\<close> is the code point with that number. The character
  predicates below are Python's on this range.
\<close>

definition code_point :: "char \<Rightarrow> nat" where
  "code_point c = of_char c"

definition isdigit_char :: "char \<Rightarrow> bool" where
  \<comment> \<open>\<open>str.isdigit\<close> on one character: the decimal digits and the superscripts
      U+00B2, U+00B3, U+00B9.\<close>
  "isdigit_char c =
     (let n = code_point c in (48 \<le> n \<and> n \<le> 57) \<or> n = 178 \<or> n = 179 \<or> n = 185)"

definition isdecimal_char :: "char \<Rightarrow> bool" where
  \<comment> \<open>What \<open>\d\<close> matches in a regular expression: the decimal digits \<open>0\<close> to \<open>9\<close>.\<close>
  "isdecimal_char c = (let n = code_point c in 48 \<le> n \<and> n \<le> 57)"

definition isspace_char :: "char \<Rightarrow> bool" where
  \<comment> \<open>The characters at which \<open>str.split()\<close> cuts and which \<open>str.strip()\<close> removes.\<close>
  "isspace_char c =
     (let n = code_point c
      in (9 \<le> n \<and> n \<le> 13) \<or> (28 \<le> n \<and> n \<le> 32) \<or> n = 133 \<or> n = 160)"

definition isdigit :: "string \<Rightarrow> bool" where
  \<comment> \<open>\<open>str.isdigit\<close>: at least one character, and every character a digit.\<close>
  "isdigit s = (s \<noteq> [] \<and> list_all isdigit_char s)"

definition lower_char :: "char \<Rightarrow> char" where
  "lower_char c =
     (let n = code_point c
      in if (65 \<le> n \<and> n \<le> 90) \<or> (192 \<le> n \<and> n \<le> 222 \<and> n \<noteq> 215)
         then char_of (n + 32) else c)"

definition lower :: "string \<Rightarrow> string" where
  "lower s = map lower_char s"

definition strip :: "string \<Rightarrow> string" where
  "strip s = rev (dropWhile isspace_char (rev (dropWhile isspace_char s)))"

fun split_from :: "string \<Rightarrow> string \<Rightarrow> string list" where
  \<comment> \<open>The scan of \<open>str.split()\<close>: \<open>cur\<close> is the word read so far.\<close>
  "split_from [] cur = (if cur = [] then [] else [cur])"
| "split_from (c # cs) cur =
     (if isspace_char c
      then (if cur = [] then split_from cs [] else cur # split_from cs [])
      else split_from cs (cur @ [c]))"

definition split :: "string \<Rightarrow> string list" where
  "split s = split_from s []"

fun join :: "string \<Rightarrow> string list \<Rightarrow> string" where
  "join sep [] = []"
| "join sep [x] = x"
| "join sep (x # y # ys) = x @ sep @ join sep (y # ys)"

section \<open>Calendar dates\<close>

text \<open>
  \<open>datetime.date\<close>: the proleptic Gregorian calendar of the standard library, years
  1 to 9999. The functions follow the library's own definitions.
\<close>

record date =
  year :: int
  month :: int
  day :: int

definition is_leap :: "int \<Rightarrow> bool" where
  "is_leap y = (y mod 4 = 0 \<and> (y mod 100 \<noteq> 0 \<or> y mod 400 = 0))"

definition days_before_year :: "int \<Rightarrow> int" where
  "days_before_year y = (let z = y - 1 in z * 365 + z div 4 - z div 100 + z div 400)"

definition DAYS_IN_MONTH :: "int list" where
  "DAYS_IN_MONTH = [-1, 31, 28, 31, 30, 31, 30, 31, 31, 30, 31, 30, 31]"

definition DAYS_BEFORE_MONTH :: "int list" where
  "DAYS_BEFORE_MONTH = [-1, 0, 31, 59, 90, 120, 151, 181, 212, 243, 273, 304, 334]"

definition days_in_month :: "int \<Rightarrow> int \<Rightarrow> int" where
  \<comment> \<open>Called with \<open>1 \<le> m \<le> 12\<close> only.\<close>
  "days_in_month y m = (if m = 2 \<and> is_leap y then 29 else DAYS_IN_MONTH ! nat m)"

definition days_before_month :: "int \<Rightarrow> int \<Rightarrow> int" where
  "days_before_month y m = DAYS_BEFORE_MONTH ! nat m + (if m > 2 \<and> is_leap y then 1 else 0)"

definition valid_date :: "date \<Rightarrow> bool" where
  \<comment> \<open>The check of the constructor: the fields of every existing \<open>date\<close> satisfy it.\<close>
  "valid_date d =
     (1 \<le> year d \<and> year d \<le> 9999 \<and> 1 \<le> month d \<and> month d \<le> 12 \<and>
      1 \<le> day d \<and> day d \<le> days_in_month (year d) (month d))"

definition datetime_date :: "int \<Rightarrow> int \<Rightarrow> int \<Rightarrow> error + date" where
  \<comment> \<open>\<open>datetime(y, m, d).date()\<close>: ValueError when the fields are out of range.\<close>
  "datetime_date y m d =
     (let r = \<lparr>year = y, month = m, day = d\<rparr>
      in if valid_date r then Inr r else Inl ValueError)"

definition toordinal :: "date \<Rightarrow> int" where
  "toordinal d = days_before_year (year d) + days_before_month (year d) (month d) + day d"

definition weekday :: "date \<Rightarrow> int" where
  \<comment> \<open>Monday is 0, Saturday 5, Sunday 6.\<close>
  "weekday d = (toordinal d + 6) mod 7"

definition date_lt :: "date \<Rightarrow> date \<Rightarrow> bool" where
  \<comment> \<open>\<open>a < b\<close> on dates compares the tuples (year, month, day).\<close>
  "date_lt a b =
     (year a < year b \<or> (year a = year b \<and>
        (month a < month b \<or> (month a = month b \<and> day a < day b))))"

definition date_sub_days :: "date \<Rightarrow> date \<Rightarrow> int" where
  \<comment> \<open>\<open>(a - b).days\<close>\<close>
  "date_sub_days a b = toordinal a - toordinal b"

definition digit :: "int \<Rightarrow> char" where
  "digit n = ''0123456789'' ! nat n"

definition fmt2 :: "int \<Rightarrow> string" where
  \<comment> \<open>Two digits with a leading zero, for 0 to 99.\<close>
  "fmt2 n = [digit (n div 10 mod 10), digit (n mod 10)]"

definition fmt4 :: "int \<Rightarrow> string" where
  \<comment> \<open>Four digits with leading zeros, for 0 to 9999.\<close>
  "fmt4 n = [digit (n div 1000 mod 10), digit (n div 100 mod 10),
             digit (n div 10 mod 10), digit (n mod 10)]"

definition fmt_year :: "int \<Rightarrow> string" where
  \<comment> \<open>\<open>%Y\<close> of the C library: the year in decimal with no padding, for 1 to 9999.\<close>
  "fmt_year n =
     (if n < 10 then [digit n]
      else if n < 100 then [digit (n div 10), digit (n mod 10)]
      else if n < 1000 then [digit (n div 100), digit (n div 10 mod 10), digit (n mod 10)]
      else [digit (n div 1000), digit (n div 100 mod 10), digit (n div 10 mod 10),
            digit (n mod 10)])"

definition strftime :: "date \<Rightarrow> string" where
  \<comment> \<open>\<open>d.strftime("%d.%m.%Y")\<close>: the year 999 prints as \<open>999\<close>.\<close>
  "strftime d = fmt2 (day d) @ ''.'' @ fmt2 (month d) @ ''.'' @ fmt_year (year d)"

definition isoformat :: "date \<Rightarrow> string" where
  \<comment> \<open>\<open>str(d)\<close>: always four digits for the year.\<close>
  "isoformat d = fmt4 (year d) @ ''-'' @ fmt2 (month d) @ ''-'' @ fmt2 (day d)"

section \<open>Parsing a date: \<open>datetime.strptime(value, "%d.%m.%Y")\<close>\<close>

text \<open>
  The library turns the format into the regular expression
  \<open>(3[0-1]|[1-2]\d|0[1-9]|[1-9]| [1-9])\.(1[0-2]|0[1-9]|[1-9])\.(\d\d\d\d)\<close>, matches it
  at the start of the text, refuses text that is left over, and builds the date, which
  checks the fields. No alternative for the day or the month contains a dot, so the day
  is the text before the first dot and the month the text between the first two.
\<close>

definition digit_value :: "char \<Rightarrow> int" where
  "digit_value c = int (code_point c) - 48"

definition nonzero_digit :: "char \<Rightarrow> bool" where
  "nonzero_digit c = (isdecimal_char c \<and> c \<noteq> CHR ''0'')"

fun match_day :: "string \<Rightarrow> int option" where
  "match_day [a, b] =
     (if a = CHR ''3'' \<and> (b = CHR ''0'' \<or> b = CHR ''1'') then Some (30 + digit_value b)
      else if (a = CHR ''1'' \<or> a = CHR ''2'') \<and> isdecimal_char b
           then Some (10 * digit_value a + digit_value b)
      else if a = CHR ''0'' \<and> nonzero_digit b then Some (digit_value b)
      else if a = CHR '' '' \<and> nonzero_digit b then Some (digit_value b)
      else None)"
| "match_day [a] = (if nonzero_digit a then Some (digit_value a) else None)"
| "match_day s = None"

fun match_month :: "string \<Rightarrow> int option" where
  "match_month [a, b] =
     (if a = CHR ''1'' \<and> (b = CHR ''0'' \<or> b = CHR ''1'' \<or> b = CHR ''2'')
      then Some (10 + digit_value b)
      else if a = CHR ''0'' \<and> nonzero_digit b then Some (digit_value b)
      else None)"
| "match_month [a] = (if nonzero_digit a then Some (digit_value a) else None)"
| "match_month s = None"

fun match_year :: "string \<Rightarrow> int option" where
  "match_year [a, b, c, d] =
     (if isdecimal_char a \<and> isdecimal_char b \<and> isdecimal_char c \<and> isdecimal_char d
      then Some (1000 * digit_value a + 100 * digit_value b + 10 * digit_value c + digit_value d)
      else None)"
| "match_year s = None"

definition not_dot :: "char \<Rightarrow> bool" where
  "not_dot c = (c \<noteq> CHR ''.'')"

definition strptime :: "string \<Rightarrow> error + date" where
  "strptime s =
     (case dropWhile not_dot s of
        [] \<Rightarrow> Inl ValueError
      | dot1 # s2 \<Rightarrow>
          (case dropWhile not_dot s2 of
             [] \<Rightarrow> Inl ValueError
           | dot2 # s3 \<Rightarrow>
               (case (match_day (takeWhile not_dot s), match_month (takeWhile not_dot s2),
                      match_year s3) of
                  (Some d, Some m, Some y) \<Rightarrow> datetime_date y m d
                | other \<Rightarrow> Inl ValueError)))"

section \<open>Fields and records\<close>

text \<open>
  \<open>Name\<close>, \<open>Phone\<close> and \<open>Birthday\<close> wrap one validated value each; the model keeps
  the value and makes the constructor's \<open>raise\<close> a result.
\<close>

definition Name :: "string \<Rightarrow> error + string" where
  "Name n = (if n = [] then Inl ValueError else Inr n)"

definition Phone :: "string \<Rightarrow> error + string" where
  "Phone phone = (if \<not> isdigit phone \<or> length phone \<noteq> 10 then Inl ValueError else Inr phone)"

definition Birthday :: "string \<Rightarrow> error + date" where
  "Birthday v = (case strptime v of Inl e \<Rightarrow> Inl ValueError | Inr d \<Rightarrow> Inr d)"

record Record =
  name :: string
  phones :: "string list"
  birthday :: "date option"

definition Record_init :: "string \<Rightarrow> error + Record" where
  \<comment> \<open>\<open>Record(name)\<close>\<close>
  "Record_init n =
     (case Name n of Inl e \<Rightarrow> Inl e
      | Inr v \<Rightarrow> Inr \<lparr>name = v, phones = [], birthday = None\<rparr>)"

definition Record_add_birthday :: "string \<Rightarrow> Record \<Rightarrow> error + Record" where
  "Record_add_birthday b r =
     (case Birthday b of Inl e \<Rightarrow> Inl e | Inr d \<Rightarrow> Inr (r\<lparr>birthday := Some d\<rparr>))"

definition add_phone :: "string \<Rightarrow> Record \<Rightarrow> error + Record" where
  "add_phone phone r =
     (case Phone phone of Inl e \<Rightarrow> Inl e | Inr p \<Rightarrow> Inr (r\<lparr>phones := phones r @ [p]\<rparr>))"

definition edit_phone :: "string \<Rightarrow> string \<Rightarrow> Record \<Rightarrow> error + Record" where
  \<comment> \<open>The first loop looks for \<open>old_phone\<close>, the second rewrites every phone equal to it.\<close>
  "edit_phone old_phone new_phone r =
     (if old_phone \<notin> set (phones r) then Inl ValueError
      else if \<not> isdigit new_phone \<or> length new_phone \<noteq> 10 then Inl ValueError
      else Inr (r\<lparr>phones := map (\<lambda>p. if p = old_phone then new_phone else p) (phones r)\<rparr>))"

definition Record_str :: "Record \<Rightarrow> string" where
  \<comment> \<open>\<open>Record.__str__\<close>\<close>
  "Record_str r =
     ''Contact name: '' @ name r @ '', phones: '' @ join ''; '' (phones r) @ '', birthday: '' @
     (case birthday r of Some d \<Rightarrow> strftime d | None \<Rightarrow> ''Not specified'')"

section \<open>The address book\<close>

text \<open>
  \<open>AddressBook\<close> is a dictionary from names to records. A dictionary keeps its keys in
  insertion order, and \<open>get_upcoming_birthdays\<close> walks the values in that order, so the
  model is an association list.
\<close>

type_synonym AddressBook = "(string \<times> Record) list"

fun setitem :: "string \<Rightarrow> Record \<Rightarrow> AddressBook \<Rightarrow> AddressBook" where
  \<comment> \<open>\<open>data[k] = v\<close>: an existing key keeps its place, a new key goes last.\<close>
  "setitem k v [] = [(k, v)]"
| "setitem k v ((k', v') # rest) =
     (if k' = k then (k, v) # rest else (k', v') # setitem k v rest)"

definition add_record :: "Record \<Rightarrow> AddressBook \<Rightarrow> AddressBook" where
  "add_record record book = setitem (name record) record book"

definition find_book :: "string \<Rightarrow> AddressBook \<Rightarrow> Record option" where
  \<comment> \<open>\<open>AddressBook.find\<close>: \<open>data.get(name)\<close>\<close>
  "find_book n book = map_of book n"

definition values_book :: "AddressBook \<Rightarrow> Record list" where
  "values_book book = map snd book"

record user_info =
  info_name :: string
  congratulation_date :: string

definition upcoming_step :: "date \<Rightarrow> Record \<Rightarrow> error + user_info option" where
  \<comment> \<open>What one round of the loop of \<open>get_upcoming_birthdays\<close> computes from its
      record: the exception raised, or the entry appended, if any.\<close>
  "upcoming_step today user =
     (case birthday user of
        None \<Rightarrow> Inr None
      | Some b \<Rightarrow>
          (case datetime_date (year today) (month b) (day b) of
             Inl e \<Rightarrow> Inl e
           | Inr birthday_this_year \<Rightarrow>
               if date_lt birthday_this_year today then Inr None
               else if date_sub_days birthday_this_year today < 7 then
                 (case (if weekday birthday_this_year = 5
                        then datetime_date (year birthday_this_year) (month birthday_this_year)
                               (day birthday_this_year + 2)
                        else if weekday birthday_this_year = 6
                        then datetime_date (year birthday_this_year) (month birthday_this_year)
                               (day birthday_this_year + 1)
                        else Inr birthday_this_year) of
                    Inl e \<Rightarrow> Inl e
                  | Inr d \<Rightarrow>
                      Inr (Some \<lparr>info_name = name user, congratulation_date = strftime d\<rparr>))
               else Inr None))"

fun upcoming_loop :: "date \<Rightarrow> Record list \<Rightarrow> user_info list \<Rightarrow> error + user_info list" where
  \<comment> \<open>What the loop computes from the values of the dictionary and the list so far; the
      run on the frame below is the embedding of the call, and the two are proved to
      agree.\<close>
  "upcoming_loop today [] upcoming_birthdays = Inr upcoming_birthdays"
| "upcoming_loop today (user # users) upcoming_birthdays =
     (case upcoming_step today user of
        Inl e \<Rightarrow> Inl e
      | Inr None \<Rightarrow> upcoming_loop today users upcoming_birthdays
      | Inr (Some i) \<Rightarrow> upcoming_loop today users (upcoming_birthdays @ [i]))"

text \<open>
  The call as a run on its frame. The frame holds the dictionary \<open>self.data\<close> and the two
  local variables; every statement of the body is an update of the frame. The loop walks
  the values of the dictionary by position and reads each record from the frame as it is
  at that round; the positions are those of the dictionary at the start of the loop, so
  every read is in range.
\<close>

record frame =
  self_data :: AddressBook
  local_upcoming_birthdays :: "user_info list"
  local_birthday_this_year :: "date option"

definition upcoming_round :: "date \<Rightarrow> nat \<Rightarrow> frame \<Rightarrow> error option \<times> frame" where
  \<comment> \<open>The round on the value at position \<open>i\<close>: the exception that leaves the call, if
      any, and the frame after the round.\<close>
  "upcoming_round today i st =
     (let user = values_book (self_data st) ! i in
      case birthday user of
        None \<Rightarrow> (None, st)
      | Some b \<Rightarrow>
          (case datetime_date (year today) (month b) (day b) of
             Inl e \<Rightarrow> (Some e, st)
           | Inr d \<Rightarrow>
               let st1 = st\<lparr>local_birthday_this_year := Some d\<rparr> in
               if date_lt d today then (None, st1)
               else if date_sub_days d today < 7 then
                 (case (if weekday d = 5
                        then datetime_date (year d) (month d) (day d + 2)
                        else if weekday d = 6
                        then datetime_date (year d) (month d) (day d + 1)
                        else Inr d) of
                    Inl e \<Rightarrow> (Some e, st1)
                  | Inr d' \<Rightarrow>
                      (None,
                       st1\<lparr>local_birthday_this_year := Some d',
                           local_upcoming_birthdays :=
                             local_upcoming_birthdays st1 @
                             [\<lparr>info_name = name user, congratulation_date = strftime d'\<rparr>]\<rparr>))
               else (None, st1)))"

fun upcoming_rounds :: "date \<Rightarrow> nat list \<Rightarrow> frame \<Rightarrow> error option \<times> frame" where
  "upcoming_rounds today [] st = (None, st)"
| "upcoming_rounds today (i # rest) st =
     (case upcoming_round today i st of
        (Some e, st') \<Rightarrow> (Some e, st')
      | (None, st') \<Rightarrow> upcoming_rounds today rest st')"

definition get_upcoming_birthdays ::
    "date \<Rightarrow> AddressBook \<Rightarrow> (error + user_info list) \<times> AddressBook" where
  \<comment> \<open>\<open>today\<close> is what \<open>datetime.today().date()\<close> returns. The result is what the call
      returns or raises, and the dictionary of the frame as the call leaves it.\<close>
  "get_upcoming_birthdays today book =
     (case upcoming_rounds today [0..<length book]
             \<lparr>self_data = book, local_upcoming_birthdays = [], local_birthday_this_year = None\<rparr> of
        (Some e, st) \<Rightarrow> (Inl e, self_data st)
      | (None, st) \<Rightarrow> (Inr (local_upcoming_birthdays st), self_data st))"

section \<open>Command handlers\<close>

text \<open>
  A handler prints lines, returns a text and may change a record of the book: its reply
  is these three. No handler prints or changes the book before it raises, so a raised
  exception leaves the book as it was.
\<close>

type_synonym reply = "string list \<times> string \<times> AddressBook"

definition input_error :: "(AddressBook \<Rightarrow> error + reply) \<Rightarrow> AddressBook \<Rightarrow> reply" where
  \<comment> \<open>The decorator: each caught exception becomes the returned text.\<close>
  "input_error func book =
     (case func book of
        Inr r \<Rightarrow> r
      | Inl KeyError \<Rightarrow> ([], ''This command can not be executed.'', book)
      | Inl ValueError \<Rightarrow> ([], ''Give me name and phone please.'', book)
      | Inl IndexError \<Rightarrow> ([], ''There is no such information.'', book)
      | Inl (OtherError e) \<Rightarrow> ([], ''Error: '' @ e, book))"

definition add_birthday_func :: "string list \<Rightarrow> AddressBook \<Rightarrow> error + reply" where
  \<comment> \<open>The body of \<open>add_birthday\<close>. Unpacking \<open>args\<close> into two names raises ValueError
      for any other length; the ValueError of \<open>Birthday\<close> is caught inside.\<close>
  "add_birthday_func args book =
     (case args of
        [n, b] \<Rightarrow>
          (case find_book n book of
             Some record \<Rightarrow>
               (case Record_add_birthday b record of
                  Inl e \<Rightarrow> Inr ([], ''Error: Invalid date format. Use DD.MM.YYYY'', book)
                | Inr record' \<Rightarrow>
                    Inr ([], ''Birthday added for '' @ n @ ''.'', setitem n record' book))
           | None \<Rightarrow> Inr ([], ''Contact '' @ n @ '' not found.'', book))
      | other \<Rightarrow> Inl ValueError)"

definition add_birthday :: "string list \<Rightarrow> AddressBook \<Rightarrow> reply" where
  "add_birthday args book = input_error (add_birthday_func args) book"

definition show_birthday_func :: "string list \<Rightarrow> AddressBook \<Rightarrow> error + reply" where
  "show_birthday_func args book =
     (case args of
        [] \<Rightarrow> Inl IndexError
      | n # rest \<Rightarrow>
          (case find_book n book of
             Some record \<Rightarrow>
               (case birthday record of
                  Some d \<Rightarrow> Inr ([], n @ [CHR 0x27] @ ''s birthday: '' @ isoformat d, book)
                | None \<Rightarrow> Inr ([], n @ '' does not have a birthday specified.'', book))
           | None \<Rightarrow> Inr ([], ''Contact '' @ n @ '' not found.'', book)))"

definition show_birthday :: "string list \<Rightarrow> AddressBook \<Rightarrow> reply" where
  "show_birthday args book = input_error (show_birthday_func args) book"

definition birthdays_func :: "date \<Rightarrow> string list \<Rightarrow> AddressBook \<Rightarrow> error + reply" where
  \<comment> \<open>The \<open>for\<close> loop returns in its first round.\<close>
  "birthdays_func today args book =
     (case get_upcoming_birthdays today book of
        (Inl e, book') \<Rightarrow> Inl e
      | (Inr upcoming_birthdays, book') \<Rightarrow>
          (case upcoming_birthdays of
             [] \<Rightarrow> Inr ([], ''No upcoming birthdays.'', book')
           | record # rest \<Rightarrow>
               Inr ([''Upcoming birthdays:''],
                    ''The congratulation date for '' @ info_name record @ '' is '' @
                      congratulation_date record,
                    book')))"

definition birthdays :: "date \<Rightarrow> string list \<Rightarrow> AddressBook \<Rightarrow> reply" where
  "birthdays today args book = input_error (birthdays_func today args) book"

definition parse_input :: "string \<Rightarrow> error + string \<times> string list" where
  \<comment> \<open>\<open>cmd, *args = user_input.split()\<close> raises ValueError when there is no word.\<close>
  "parse_input user_input =
     (case split user_input of
        [] \<Rightarrow> Inl ValueError
      | cmd # args \<Rightarrow> Inr (lower (strip cmd), args))"

section \<open>The main loop\<close>

text \<open>
  One round of \<open>while True\<close> on the line that \<open>input\<close> returned: the round goes on to
  the next one with the lines it printed and the book, or leaves the loop, or an
  exception leaves \<open>main\<close>. The branches \<open>add\<close>, \<open>change\<close> and \<open>phone\<close> call the
  record's methods with no \<open>try\<close> around them.
\<close>

datatype outcome = Continue "string list" AddressBook | Break "string list" | Uncaught error

definition invalid_args :: "AddressBook \<Rightarrow> outcome" where
  "invalid_args book = Continue [''Invalid number of arguments.''] book"

definition main_add :: "string list \<Rightarrow> AddressBook \<Rightarrow> outcome" where
  "main_add args book =
     (case args of
        [n, phone] \<Rightarrow>
          (case Record_init n of
             Inl e \<Rightarrow> Uncaught e
           | Inr record \<Rightarrow>
               (case add_phone phone record of
                  Inl e \<Rightarrow> Uncaught e
                | Inr record' \<Rightarrow>
                    Continue [''Added new contact: '' @ n @ '' - '' @ phone]
                      (add_record record' book)))
      | other \<Rightarrow> invalid_args book)"

definition main_change :: "string list \<Rightarrow> AddressBook \<Rightarrow> outcome" where
  \<comment> \<open>\<open>record.phones[0]\<close> raises IndexError on a record without phones.\<close>
  "main_change args book =
     (case args of
        [n, new_phone] \<Rightarrow>
          (case find_book n book of
             Some record \<Rightarrow>
               (case phones record of
                  [] \<Rightarrow> Uncaught IndexError
                | p # ps \<Rightarrow>
                    (case edit_phone p new_phone record of
                       Inl e \<Rightarrow> Uncaught e
                     | Inr record' \<Rightarrow>
                         Continue [''Phone number changed for '' @ n @ ''.'']
                           (setitem n record' book)))
           | None \<Rightarrow> Continue [''Contact '' @ n @ '' not found.''] book)
      | other \<Rightarrow> invalid_args book)"

definition main_phone :: "string list \<Rightarrow> AddressBook \<Rightarrow> outcome" where
  "main_phone args book =
     (case args of
        [n] \<Rightarrow>
          (case find_book n book of
             Some record \<Rightarrow>
               (case phones record of
                  [] \<Rightarrow> Uncaught IndexError
                | p # ps \<Rightarrow> Continue [''Phone number for '' @ n @ '': '' @ p] book)
           | None \<Rightarrow> Continue [''Contact '' @ n @ '' not found.''] book)
      | other \<Rightarrow> invalid_args book)"

definition print_reply :: "reply \<Rightarrow> outcome" where
  \<comment> \<open>\<open>print(handler(args, book))\<close>\<close>
  "print_reply r = (case r of (printed, returned, book') \<Rightarrow> Continue (printed @ [returned]) book')"

definition main_step :: "date \<Rightarrow> AddressBook \<Rightarrow> string \<Rightarrow> outcome" where
  "main_step today book user_input =
     (case parse_input user_input of
        Inl e \<Rightarrow> Uncaught e
      | Inr (command, args) \<Rightarrow>
          if command \<in> set [''close'', ''exit''] then Break [''Good bye!'']
          else if command = ''hello'' then Continue [''How can I help you?''] book
          else if command = ''add'' then main_add args book
          else if command = ''change'' then main_change args book
          else if command = ''phone'' then main_phone args book
          else if command = ''all''
               then Continue (''All contacts:'' # map Record_str (values_book book)) book
          else if command = ''add-birthday''
               then (if length args \<noteq> 2 then invalid_args book
                     else print_reply (add_birthday args book))
          else if command = ''show-birthday''
               then (if length args \<noteq> 1 then invalid_args book
                     else print_reply (show_birthday args book))
          else if command = ''birthdays'' then print_reply (birthdays today args book)
          else Continue [''Invalid command.''] book)"

text \<open>
  A run of \<open>main\<close> on the lines of the standard input, from the book that \<open>load_data\<close>
  returned and with the date of the day: it ends when the loop is left, with the book
  handed to \<open>save_data\<close>, or when an exception leaves \<open>main\<close>. At the end of the input
  \<open>input\<close> raises EOFError.
\<close>

datatype run = Saved "string list" AddressBook | Crashed "string list" error

fun main_loop :: "date \<Rightarrow> AddressBook \<Rightarrow> string list \<Rightarrow> string list \<Rightarrow> run" where
  "main_loop today book [] printed = Crashed printed (OtherError ''EOF when reading a line'')"
| "main_loop today book (user_input # inputs) printed =
     (case main_step today book user_input of
        Continue lines book' \<Rightarrow> main_loop today book' inputs (printed @ lines)
      | Break lines \<Rightarrow> Saved (printed @ lines) book
      | Uncaught e \<Rightarrow> Crashed printed e)"

definition main :: "date \<Rightarrow> AddressBook \<Rightarrow> string list \<Rightarrow> run" where
  "main today loaded inputs = main_loop today loaded inputs [''Welcome to the assistant bot!'']"

section \<open>The specification's terms\<close>

text \<open>
  The words of the specification, to state the properties with: the candidate date of a
  birthday, the day after a date and the date some days later, the congratulation date
  of a candidate, the records inside the window of seven days, and the entry expected
  for a record.
\<close>

definition candidate :: "date \<Rightarrow> date \<Rightarrow> date" where
  \<comment> \<open>The birthday's month and day in the year of \<open>today\<close>.\<close>
  "candidate today b = \<lparr>year = year today, month = month b, day = day b\<rparr>"

definition next_day :: "date \<Rightarrow> date" where
  "next_day d =
     (if day d < days_in_month (year d) (month d) then d\<lparr>day := day d + 1\<rparr>
      else if month d < 12 then \<lparr>year = year d, month = month d + 1, day = 1\<rparr>
      else \<lparr>year = year d + 1, month = 1, day = 1\<rparr>)"

definition plus_days :: "date \<Rightarrow> nat \<Rightarrow> date" where
  \<comment> \<open>The date \<open>n\<close> days after \<open>d\<close>, across the ends of months and years.\<close>
  "plus_days d n = (next_day ^^ n) d"

definition congratulation_of :: "date \<Rightarrow> date" where
  \<comment> \<open>Saturday moves two days on, Sunday one day, any other day stays.\<close>
  "congratulation_of c =
     (if weekday c = 5 then plus_days c 2 else if weekday c = 6 then plus_days c 1 else c)"

definition qualifying :: "date \<Rightarrow> Record \<Rightarrow> date option" where
  \<comment> \<open>The candidate of a record with a birthday, when it is 0 to 6 days ahead.\<close>
  "qualifying today user =
     (case birthday user of
        None \<Rightarrow> None
      | Some b \<Rightarrow>
          if 0 \<le> date_sub_days (candidate today b) today \<and>
             date_sub_days (candidate today b) today < 7
          then Some (candidate today b) else None)"

definition expected_entry :: "date \<Rightarrow> Record \<Rightarrow> user_info option" where
  "expected_entry today user =
     (case qualifying today user of
        None \<Rightarrow> None
      | Some c \<Rightarrow>
          Some \<lparr>info_name = name user, congratulation_date = strftime (congratulation_of c)\<rparr>)"


text \<open>
  Phones: what the check of \<open>Phone\<close> and \<open>edit_phone\<close> accepts, and ten decimal digits,
  the only texts of ten characters that match \<open>^\d{10}$\<close>.
\<close>

definition phone_ok :: "string \<Rightarrow> bool" where
  "phone_ok p = (length p = 10 \<and> list_all isdigit_char p)"

definition ten_decimal_digits :: "string \<Rightarrow> bool" where
  "ten_decimal_digits p = (length p = 10 \<and> list_all isdecimal_char p)"

definition record_ok :: "Record \<Rightarrow> bool" where
  "record_ok r = list_all phone_ok (phones r)"

definition book_ok :: "AddressBook \<Rightarrow> bool" where
  "book_ok book = list_all record_ok (values_book book)"

section \<open>The calendar\<close>

text \<open>
  Within one year the order of the tuples is the order of the ordinals, and the day after
  a date has the next ordinal: \<open>plus_days\<close> adds days as the library's \<open>timedelta\<close> does.
\<close>

lemma div_pred:
  fixes y k :: int
  assumes "0 < k"
  shows "y div k = (y - 1) div k + (if y mod k = 0 then 1 else 0)"
proof (cases "y mod k = 0")
  case True
  have "y = k * (y div k)" using True mult_div_mod_eq [of k y] by simp
  then have "y - 1 = k * (y div k - 1) + (k - 1)"
    by (simp add: right_diff_distrib)
  then have "(y - 1) div k = y div k - 1"
    using assms by (intro int_div_pos_eq [where r = "k - 1"]) simp_all
  then show ?thesis using True by simp
next
  case False
  have r: "0 \<le> y mod k" "y mod k < k" using assms by simp_all
  have "y = k * (y div k) + y mod k" by simp
  then have "y - 1 = k * (y div k) + (y mod k - 1)" by linarith
  then have "(y - 1) div k = y div k"
    using r False by (intro int_div_pos_eq [where r = "y mod k - 1"]) simp_all
  then show ?thesis using False by simp
qed

lemma mod_400_100: "(y::int) mod 400 = 0 \<Longrightarrow> y mod 100 = 0"
  using mod_mod_cancel [of 100 400 y] by simp

lemma mod_100_4: "(y::int) mod 100 = 0 \<Longrightarrow> y mod 4 = 0"
  using mod_mod_cancel [of 4 100 y] by simp

lemma leap_count:
  "(if y mod 4 = 0 then 1 else 0) - (if y mod 100 = 0 then 1 else 0)
     + (if y mod 400 = 0 then 1 else 0) = (if is_leap y then 1 else (0::int))"
proof (cases "y mod 400 = 0")
  case True
  then have "y mod 100 = 0" by (rule mod_400_100)
  moreover from this have "y mod 4 = 0" by (rule mod_100_4)
  ultimately show ?thesis using True by (simp add: is_leap_def)
next
  case False
  show ?thesis
  proof (cases "y mod 100 = 0")
    case True
    then have "y mod 4 = 0" by (rule mod_100_4)
    with True \<open>y mod 400 \<noteq> 0\<close> show ?thesis by (simp add: is_leap_def)
  next
    case False
    with \<open>y mod 400 \<noteq> 0\<close> show ?thesis by (simp add: is_leap_def)
  qed
qed

lemma year_sum:
  fixes y :: int
  assumes "A = a + ia" "B = b + ib" "C = c + ic"
  shows "y * 365 + A - B + C = ((y - 1) * 365 + a - b + c) + 365 + (ia - ib + ic)"
  unfolding assms by (simp add: left_diff_distrib)

lemma days_before_year_step:
  "days_before_year (y + 1) = days_before_year y + 365 + (if is_leap y then 1 else 0)"
proof -
  have "days_before_year (y + 1) = y * 365 + y div 4 - y div 100 + y div 400"
    by (simp add: days_before_year_def)
  also have "\<dots> = ((y - 1) * 365 + (y - 1) div 4 - (y - 1) div 100 + (y - 1) div 400) + 365
        + ((if y mod 4 = 0 then 1 else 0) - (if y mod 100 = 0 then 1 else 0)
            + (if y mod 400 = 0 then 1 else 0))"
    by (rule year_sum) (rule div_pred, simp)+
  also have "\<dots> = days_before_year y + 365 + (if is_leap y then 1 else 0)"
    unfolding leap_count days_before_year_def Let_def ..
  finally show ?thesis .
qed

lemma month_cases:
  "1 \<le> m \<Longrightarrow> m \<le> 12 \<Longrightarrow>
   m = 1 \<or> m = 2 \<or> m = 3 \<or> m = 4 \<or> m = 5 \<or> m = 6 \<or> m = 7 \<or> m = 8 \<or> m = 9 \<or> m = 10 \<or> m = 11 \<or> m = (12::int)"
  by arith

lemma days_before_month_step:
  assumes "1 \<le> m" "m < 12"
  shows "days_before_month y (m + 1) = days_before_month y m + days_in_month y m"
proof -
  from assms month_cases [of m]
  have "m = 1 \<or> m = 2 \<or> m = 3 \<or> m = 4 \<or> m = 5 \<or> m = 6 \<or> m = 7 \<or> m = 8 \<or> m = 9 \<or> m = 10 \<or> m = 11"
    by simp
  then show ?thesis
    by (elim disjE)
       (simp_all add: days_before_month_def days_in_month_def DAYS_BEFORE_MONTH_def DAYS_IN_MONTH_def)
qed

lemma days_in_month_pos:
  assumes "1 \<le> m" "m \<le> 12"
  shows "28 \<le> days_in_month y m"
proof -
  from assms month_cases [of m]
  have "m = 1 \<or> m = 2 \<or> m = 3 \<or> m = 4 \<or> m = 5 \<or> m = 6 \<or> m = 7 \<or> m = 8 \<or> m = 9 \<or> m = 10 \<or> m = 11 \<or> m = 12"
    by simp
  then show ?thesis
    by (elim disjE) (simp_all add: days_in_month_def DAYS_IN_MONTH_def)
qed

lemma days_before_month_upto:
  assumes "1 \<le> m"
  shows "m + 1 + int k \<le> 12 \<Longrightarrow>
         days_before_month y m + days_in_month y m \<le> days_before_month y (m + 1 + int k)"
proof (induction k)
  case 0
  then show ?case using assms days_before_month_step [of m y] by simp
next
  case (Suc k)
  let ?n = "m + 1 + int k"
  have le: "days_before_month y m + days_in_month y m \<le> days_before_month y ?n"
    using Suc by simp
  have n: "1 \<le> ?n" "?n < 12" "?n \<le> 12"
    using Suc.prems assms by simp_all
  have "days_before_month y (?n + 1) = days_before_month y ?n + days_in_month y ?n"
    using n by (intro days_before_month_step)
  moreover have "28 \<le> days_in_month y ?n"
    using n by (intro days_in_month_pos)
  ultimately have "days_before_month y m + days_in_month y m \<le> days_before_month y (?n + 1)"
    using le by linarith
  moreover have "m + 1 + int (Suc k) = ?n + 1" by simp
  ultimately show ?case by (simp only:)
qed

lemma days_before_month_mono:
  assumes "1 \<le> m" "m < m'" "m' \<le> 12"
  shows "days_before_month y m + days_in_month y m \<le> days_before_month y m'"
proof -
  have "m + 1 + int (nat (m' - m - 1)) = m'" using assms by simp
  then show ?thesis
    using days_before_month_upto [OF assms(1), of "nat (m' - m - 1)" y] assms by simp
qed

lemma date_lt_toordinal:
  assumes "valid_date a" "valid_date b" "year a = year b"
  shows "date_lt a b \<longleftrightarrow> toordinal a < toordinal b"
proof -
  have va: "1 \<le> month a" "month a \<le> 12" "1 \<le> day a" "day a \<le> days_in_month (year a) (month a)"
    and vb: "1 \<le> month b" "month b \<le> 12" "1 \<le> day b" "day b \<le> days_in_month (year a) (month b)"
    using assms by (simp_all add: valid_date_def)
  consider "month a < month b" | "month a = month b" | "month b < month a" by linarith
  then show ?thesis
  proof cases
    case 1
    have "days_before_month (year a) (month a) + days_in_month (year a) (month a)
            \<le> days_before_month (year a) (month b)"
      using 1 va vb by (intro days_before_month_mono)
    then show ?thesis
      using 1 va vb assms(3) by (simp add: date_lt_def toordinal_def)
  next
    case 2
    then show ?thesis using assms(3) by (simp add: date_lt_def toordinal_def)
  next
    case 3
    have "days_before_month (year a) (month b) + days_in_month (year a) (month b)
            \<le> days_before_month (year a) (month a)"
      using 3 va vb by (intro days_before_month_mono)
    then show ?thesis
      using 3 va vb assms(3) by (simp add: date_lt_def toordinal_def)
  qed
qed

lemma toordinal_next_day:
  assumes "valid_date d"
  shows "toordinal (next_day d) = toordinal d + 1"
proof -
  have v: "1 \<le> month d" "month d \<le> 12" "day d \<le> days_in_month (year d) (month d)"
    using assms by (simp_all add: valid_date_def)
  consider "day d < days_in_month (year d) (month d)"
    | "day d = days_in_month (year d) (month d)" "month d < 12"
    | "day d = days_in_month (year d) (month d)" "month d = 12"
    using v by linarith
  then show ?thesis
  proof cases
    case 1
    then show ?thesis by (simp add: next_day_def toordinal_def)
  next
    case 2
    then show ?thesis
      using v days_before_month_step [of "month d" "year d"]
      by (simp add: next_day_def toordinal_def)
  next
    case 3
    then show ?thesis
      using days_before_year_step [of "year d"]
      by (simp add: next_day_def toordinal_def days_before_month_def days_in_month_def
            DAYS_BEFORE_MONTH_def DAYS_IN_MONTH_def)
  qed
qed

lemma datetime_date_Inr:
  "datetime_date y m d = Inr x \<longleftrightarrow>
     x = \<lparr>year = y, month = m, day = d\<rparr> \<and> valid_date \<lparr>year = y, month = m, day = d\<rparr>"
  by (auto simp: datetime_date_def Let_def)

lemma datetime_date_Inl: "datetime_date y m d = Inl e \<Longrightarrow> e = ValueError"
  by (auto simp: datetime_date_def Let_def split: if_splits)

lemma plus_days_1:
  "day c + 1 \<le> days_in_month (year c) (month c) \<Longrightarrow>
   plus_days c (Suc 0) = \<lparr>year = year c, month = month c, day = day c + 1\<rparr>"
  by (simp add: plus_days_def next_day_def)

lemma plus_days_2:
  "day c + 2 \<le> days_in_month (year c) (month c) \<Longrightarrow>
   plus_days c 2 = \<lparr>year = year c, month = month c, day = day c + 2\<rparr>"
  by (simp add: plus_days_def next_day_def numeral_2_eq_2)

lemma valid_next_day:
  assumes "valid_date d" "year d < 9999 \<or> month d < 12 \<or> day d < 31"
  shows "valid_date (next_day d)"
proof -
  have v: "1 \<le> year d" "year d \<le> 9999" "1 \<le> month d" "month d \<le> 12" "1 \<le> day d"
    "day d \<le> days_in_month (year d) (month d)"
    using assms(1) by (simp_all add: valid_date_def)
  consider "day d < days_in_month (year d) (month d)"
    | "day d = days_in_month (year d) (month d)" "month d < 12"
    | "day d = days_in_month (year d) (month d)" "month d = 12"
    using v by linarith
  then show ?thesis
  proof cases
    case 1
    then show ?thesis using v by (simp add: next_day_def valid_date_def)
  next
    case 2
    have "28 \<le> days_in_month (year d) (month d + 1)"
      using v 2 by (intro days_in_month_pos) simp_all
    then show ?thesis using 2 v by (simp add: next_day_def valid_date_def)
  next
    case 3
    then have "day d = 31" by (simp add: days_in_month_def DAYS_IN_MONTH_def)
    then have "year d < 9999" using assms(2) 3 by simp
    then show ?thesis using 3 v
      by (simp add: next_day_def valid_date_def days_in_month_def DAYS_IN_MONTH_def)
  qed
qed

lemma toordinal_plus_days:
  assumes "valid_date c" "year c < 9999"
  shows "toordinal (plus_days c (Suc 0)) = toordinal c + 1"
    and "toordinal (plus_days c 2) = toordinal c + 2"
proof -
  show 1: "toordinal (plus_days c (Suc 0)) = toordinal c + 1"
    using assms(1) by (simp add: plus_days_def toordinal_next_day)
  have "valid_date (next_day c)" using assms by (intro valid_next_day) simp_all
  then have "toordinal (next_day (next_day c)) = toordinal (next_day c) + 1"
    by (rule toordinal_next_day)
  then show "toordinal (plus_days c 2) = toordinal c + 2"
    using assms(1) by (simp add: plus_days_def numeral_2_eq_2 toordinal_next_day)
qed

lemma congratulation_on_monday:
  assumes "valid_date c" "year c < 9999" "weekday c = 5 \<or> weekday c = 6"
  shows "weekday (congratulation_of c) = 0"
  using assms(3) toordinal_plus_days [OF assms(1,2)]
  by (auto simp: congratulation_of_def weekday_def) presburger+

section \<open>The loop of \<open>get_upcoming_birthdays\<close>\<close>

text \<open>
  A round that does not raise appends the expected entry of its record, and a call that
  returns has collected the expected entries in the order of the book.
\<close>

lemma upcoming_round_frame: "self_data (snd (upcoming_round today i st)) = self_data st"
  by (simp add: upcoming_round_def Let_def split: option.splits sum.splits)

lemma upcoming_rounds_frame: "self_data (snd (upcoming_rounds today rounds st)) = self_data st"
proof (induction rounds arbitrary: st)
  case Nil
  then show ?case by simp
next
  case (Cons i rest)
  obtain r st' where r: "upcoming_round today i st = (r, st')" by (cases "upcoming_round today i st")
  then have "self_data st' = self_data st" using upcoming_round_frame [of today i st] by simp
  then show ?case using Cons.IH [of st'] r by (cases r) simp_all
qed

lemma upcoming_round_raises:
  "fst (upcoming_round today i st) =
     (case upcoming_step today (values_book (self_data st) ! i) of
        Inl e \<Rightarrow> Some e | Inr entry \<Rightarrow> None)"
  by (simp add: upcoming_round_def upcoming_step_def Let_def split: option.splits sum.splits)

lemma upcoming_round_appends:
  "local_upcoming_birthdays (snd (upcoming_round today i st)) =
     (case upcoming_step today (values_book (self_data st) ! i) of
        Inr (Some entry) \<Rightarrow> local_upcoming_birthdays st @ [entry]
      | other \<Rightarrow> local_upcoming_birthdays st)"
  by (simp add: upcoming_round_def upcoming_step_def Let_def split: option.splits sum.splits)

lemma upcoming_rounds_loop:
  "upcoming_rounds today rounds st = (r, st') \<Longrightarrow>
   (case upcoming_loop today (map (\<lambda>i. values_book (self_data st) ! i) rounds)
           (local_upcoming_birthdays st) of
      Inl e \<Rightarrow> r = Some e
    | Inr res \<Rightarrow> r = None \<and> local_upcoming_birthdays st' = res)"
proof (induction rounds arbitrary: st)
  case Nil
  then show ?case by auto
next
  case (Cons i rest)
  obtain r1 st1 where r1: "upcoming_round today i st = (r1, st1)"
    by (cases "upcoming_round today i st")
  have frame: "self_data st1 = self_data st"
    using upcoming_round_frame [of today i st] r1 by simp
  have raises: "r1 = (case upcoming_step today (values_book (self_data st) ! i) of
        Inl e \<Rightarrow> Some e | Inr entry \<Rightarrow> None)"
    using upcoming_round_raises [of today i st] r1 by simp
  have appends: "local_upcoming_birthdays st1 =
     (case upcoming_step today (values_book (self_data st) ! i) of
        Inr (Some entry) \<Rightarrow> local_upcoming_birthdays st @ [entry]
      | other \<Rightarrow> local_upcoming_birthdays st)"
    using upcoming_round_appends [of today i st] r1 by simp
  show ?case
  proof (cases "upcoming_step today (values_book (self_data st) ! i)")
    case (Inl e)
    then show ?thesis using Cons.prems r1 raises by simp
  next
    case (Inr entry)
    then have "upcoming_rounds today rest st1 = (r, st')"
      using Cons.prems r1 raises by simp
    from Cons.IH [OF this] show ?thesis
      using Inr frame appends by (cases entry) simp_all
  qed
qed

lemma get_upcoming_birthdays_eq:
  "get_upcoming_birthdays today book = (upcoming_loop today (values_book book) [], book)"
proof -
  let ?st = "\<lparr>self_data = book, local_upcoming_birthdays = [], local_birthday_this_year = None\<rparr>"
  obtain r st' where r: "upcoming_rounds today [0..<length book] ?st = (r, st')"
    by (cases "upcoming_rounds today [0..<length book] ?st")
  have "map (\<lambda>i. values_book book ! i) [0..<length book] = values_book book"
    using map_nth [of "values_book book"] by (simp add: values_book_def)
  then have loop: "case upcoming_loop today (values_book book) [] of
      Inl e \<Rightarrow> r = Some e
    | Inr res \<Rightarrow> r = None \<and> local_upcoming_birthdays st' = res"
    using upcoming_rounds_loop [OF r] by simp
  have "self_data st' = book"
    using upcoming_rounds_frame [of today "[0..<length book]" ?st] r by simp
  then show ?thesis
    using loop r by (simp add: get_upcoming_birthdays_def split: sum.splits)
qed

lemma shift_result:
  assumes "(if weekday c = 5 then datetime_date (year c) (month c) (day c + 2)
            else if weekday c = 6 then datetime_date (year c) (month c) (day c + 1)
            else Inr c) = Inr d"
  shows "d = congratulation_of c"
proof -
  consider "weekday c = 5" | "weekday c = 6" | "weekday c \<noteq> 5" "weekday c \<noteq> 6" by blast
  then show ?thesis
  proof cases
    case 1
    with assms have "datetime_date (year c) (month c) (day c + 2) = Inr d" by simp
    then have "d = \<lparr>year = year c, month = month c, day = day c + 2\<rparr>"
      and "day c + 2 \<le> days_in_month (year c) (month c)"
      by (simp_all add: datetime_date_Inr valid_date_def)
    then show ?thesis using 1 by (simp add: congratulation_of_def plus_days_2)
  next
    case 2
    with assms have "datetime_date (year c) (month c) (day c + 1) = Inr d" by simp
    then have "d = \<lparr>year = year c, month = month c, day = day c + 1\<rparr>"
      and "day c + 1 \<le> days_in_month (year c) (month c)"
      by (simp_all add: datetime_date_Inr valid_date_def)
    then show ?thesis using 2 by (simp add: congratulation_of_def plus_days_1)
  next
    case 3
    with assms show ?thesis by (simp add: congratulation_of_def)
  qed
qed

lemma upcoming_step_spec:
  assumes "valid_date today" "upcoming_step today user = Inr r"
  shows "r = expected_entry today user"
proof (cases "birthday user")
  case None
  with assms(2) show ?thesis
    by (simp add: upcoming_step_def expected_entry_def qualifying_def)
next
  case (Some b)
  let ?c = "candidate today b"
  from assms(2) Some obtain c where c: "datetime_date (year today) (month b) (day b) = Inr c"
    by (auto simp: upcoming_step_def split: sum.splits)
  then have cc: "c = ?c" and vc: "valid_date ?c"
    by (simp_all add: datetime_date_Inr candidate_def)
  have lt: "date_lt ?c today \<longleftrightarrow> toordinal ?c < toordinal today"
    using vc assms(1) by (intro date_lt_toordinal) (simp_all add: candidate_def)
  consider "date_lt ?c today" | "\<not> date_lt ?c today" "date_sub_days ?c today < 7"
    | "\<not> date_lt ?c today" "\<not> date_sub_days ?c today < 7" by blast
  then show ?thesis
  proof cases
    case 1
    then have "r = None" using assms(2) Some c cc by (simp add: upcoming_step_def)
    moreover have "qualifying today user = None"
      using 1 lt Some by (simp add: qualifying_def date_sub_days_def)
    ultimately show ?thesis by (simp add: expected_entry_def)
  next
    case 2
    then have q: "qualifying today user = Some ?c"
      using lt Some by (simp add: qualifying_def date_sub_days_def)
    from assms(2) Some c cc 2 obtain d where
      d: "(if weekday ?c = 5 then datetime_date (year ?c) (month ?c) (day ?c + 2)
           else if weekday ?c = 6 then datetime_date (year ?c) (month ?c) (day ?c + 1)
           else Inr ?c) = Inr d"
      and r: "r = Some \<lparr>info_name = name user, congratulation_date = strftime d\<rparr>"
      by (auto simp: upcoming_step_def split: sum.splits if_splits)
    from d have "d = congratulation_of ?c" by (rule shift_result)
    with r q show ?thesis by (simp add: expected_entry_def)
  next
    case 3
    then have "r = None" using assms(2) Some c cc by (simp add: upcoming_step_def)
    moreover have "qualifying today user = None"
      using 3 Some by (simp add: qualifying_def)
    ultimately show ?thesis by (simp add: expected_entry_def)
  qed
qed

lemma upcoming_loop_spec:
  assumes "valid_date today"
  shows "upcoming_loop today users acc = Inr res \<Longrightarrow>
         res = acc @ List.map_filter (expected_entry today) users"
proof (induction users arbitrary: acc)
  case Nil
  then show ?case by (simp add: List.map_filter_simps)
next
  case (Cons u us)
  from Cons.prems obtain r where r: "upcoming_step today u = Inr r"
    by (auto split: sum.splits)
  then have e: "expected_entry today u = r"
    using assms upcoming_step_spec by blast
  show ?case
  proof (cases r)
    case None
    then show ?thesis using Cons r e by (simp add: List.map_filter_simps)
  next
    case (Some i)
    then show ?thesis using Cons.IH [of "acc @ [i]"] Cons.prems r e
      by (simp add: List.map_filter_simps)
  qed
qed



lemma no_expected_entries:
  "List.map_filter (expected_entry today) users = [] \<Longrightarrow>
   list_all (\<lambda>user. qualifying today user = None) users"
  by (induction users)
     (auto simp: List.map_filter_simps expected_entry_def split: option.splits)

lemma expected_names:
  "map info_name (List.map_filter (expected_entry today) users) =
   map name (filter (\<lambda>user. case birthday user of
                 None \<Rightarrow> False
               | Some b \<Rightarrow> 0 \<le> date_sub_days (candidate today b) today \<and>
                          date_sub_days (candidate today b) today < 7) users)"
  by (induction users)
     (simp_all add: List.map_filter_simps expected_entry_def qualifying_def split: option.splits)

lemma upcoming_step_error: "upcoming_step today user = Inl e \<Longrightarrow> e = ValueError"
  by (auto simp: upcoming_step_def split: option.splits sum.splits if_splits
           dest: datetime_date_Inl)

lemma upcoming_loop_error: "upcoming_loop today users acc = Inl e \<Longrightarrow> e = ValueError"
proof (induction users arbitrary: acc)
  case Nil
  then show ?case by simp
next
  case (Cons u us)
  show ?case
  proof (cases "upcoming_step today u")
    case (Inl x)
    then show ?thesis using Cons.prems upcoming_step_error [of today u x] by simp
  next
    case (Inr r)
    then show ?thesis using Cons by (cases r) simp_all
  qed
qed

lemma upcoming_loop_raises:
  "user \<in> set users \<Longrightarrow> upcoming_step today user = Inl ValueError \<Longrightarrow>
   upcoming_loop today users acc = Inl ValueError"
proof (induction users arbitrary: acc)
  case Nil
  then show ?case by simp
next
  case (Cons u us)
  show ?case
  proof (cases "upcoming_step today u")
    case (Inl e)
    then show ?thesis using upcoming_step_error [of today u e] by simp
  next
    case (Inr r)
    then have "user \<in> set us" using Cons.prems by auto
    then show ?thesis using Cons.IH Cons.prems(2) Inr by (cases r) simp_all
  qed
qed

lemma feb29_step:
  assumes "birthday user = Some b" "month b = 2" "day b = 29" "\<not> is_leap (year today)"
  shows "upcoming_step today user = Inl ValueError"
  using assms
  by (simp add: upcoming_step_def datetime_date_def valid_date_def days_in_month_def
        DAYS_IN_MONTH_def)

section \<open>The dictionary and the phones of a book\<close>

lemma map_of_setitem: "map_of (setitem k v book) = (map_of book)(k \<mapsto> v)"
  by (induction book) (auto simp: fun_eq_iff)

lemma keys_setitem: "k \<in> set (map fst book) \<Longrightarrow> map fst (setitem k v book) = map fst book"
proof (induction book)
  case Nil
  then show ?case by simp
next
  case (Cons p ps)
  obtain k' v' where p: "p = (k', v')" by (cases p)
  show ?case
  proof (cases "k' = k")
    case True
    then show ?thesis using p by simp
  next
    case False
    then have "k \<in> set (map fst ps)" using Cons.prems p by simp
    then show ?thesis using Cons.IH False p by simp
  qed
qed

lemma find_book_key: "find_book n book = Some r \<Longrightarrow> n \<in> set (map fst book)"
  by (auto simp: find_book_def dest!: map_of_SomeD intro: rev_image_eqI)

lemma Phone_iff: "Phone p = Inr q \<longleftrightarrow> q = p \<and> phone_ok p"
  by (auto simp: Phone_def phone_ok_def isdigit_def)

lemma Phone_Inl_iff: "Phone p = Inl e \<longleftrightarrow> e = ValueError \<and> \<not> phone_ok p"
  by (auto simp: Phone_def phone_ok_def isdigit_def)

lemma record_ok_lookup:
  "book_ok book \<Longrightarrow> find_book n book = Some r \<Longrightarrow> record_ok r"
  by (auto simp: book_ok_def values_book_def find_book_def list_all_iff dest!: map_of_SomeD)

lemma book_ok_setitem:
  "book_ok book \<Longrightarrow> record_ok r \<Longrightarrow> book_ok (setitem k r book)"
  by (induction book) (auto simp: book_ok_def values_book_def)

lemma add_phone_ok:
  "record_ok r \<Longrightarrow> add_phone p r = Inr r' \<Longrightarrow> record_ok r'"
  by (auto simp: add_phone_def record_ok_def Phone_iff split: sum.splits)

lemma edit_phone_ok:
  "record_ok r \<Longrightarrow> edit_phone old new r = Inr r' \<Longrightarrow> record_ok r'"
  by (auto simp: edit_phone_def record_ok_def phone_ok_def isdigit_def list_all_iff
           split: if_splits)

lemma Record_init_ok: "Record_init n = Inr r \<Longrightarrow> record_ok r"
  by (auto simp: Record_init_def record_ok_def split: sum.splits)

lemma Record_add_birthday_ok:
  "record_ok r \<Longrightarrow> Record_add_birthday b r = Inr r' \<Longrightarrow> record_ok r'"
  by (auto simp: Record_add_birthday_def record_ok_def split: sum.splits)

lemma main_add_ok:
  assumes "book_ok book" "main_add args book = Continue out book'"
  shows "book_ok book'"
  using assms
  by (auto simp: main_add_def invalid_args_def add_record_def
           split: list.splits sum.splits
           intro!: book_ok_setitem dest!: Record_init_ok elim: add_phone_ok)

lemma main_change_ok:
  assumes "book_ok book" "main_change args book = Continue out book'"
  shows "book_ok book'"
  using assms
  by (auto simp: main_change_def invalid_args_def
           split: list.splits sum.splits option.splits
           intro!: book_ok_setitem dest: record_ok_lookup elim: edit_phone_ok)

lemma main_phone_ok:
  assumes "book_ok book" "main_phone args book = Continue out book'"
  shows "book_ok book'"
  using assms
  by (auto simp: main_phone_def invalid_args_def split: list.splits option.splits)

lemma input_error_ok:
  assumes "book_ok book" "\<And>r. func book = Inr r \<Longrightarrow> book_ok (snd (snd r))"
  shows "book_ok (snd (snd (input_error func book)))"
  using assms by (auto simp: input_error_def split: sum.splits error.splits)

lemma add_birthday_ok:
  assumes "book_ok book"
  shows "book_ok (snd (snd (add_birthday args book)))"
  unfolding add_birthday_def
proof (rule input_error_ok [OF assms])
  fix r assume "add_birthday_func args book = Inr r"
  then show "book_ok (snd (snd r))"
    using assms
    by (auto simp: add_birthday_func_def split: list.splits option.splits sum.splits
             intro!: book_ok_setitem intro: Record_add_birthday_ok [OF record_ok_lookup])
qed

lemma show_birthday_ok:
  assumes "book_ok book"
  shows "book_ok (snd (snd (show_birthday args book)))"
  unfolding show_birthday_def
proof (rule input_error_ok [OF assms])
  fix r assume "show_birthday_func args book = Inr r"
  then show "book_ok (snd (snd r))"
    using assms
    by (auto simp: show_birthday_func_def split: list.splits option.splits)
qed

lemma birthdays_ok:
  assumes "book_ok book"
  shows "book_ok (snd (snd (birthdays today args book)))"
  unfolding birthdays_def
proof (rule input_error_ok [OF assms])
  fix r assume "birthdays_func today args book = Inr r"
  then show "book_ok (snd (snd r))"
    using assms
    by (auto simp: birthdays_func_def get_upcoming_birthdays_eq split: list.splits sum.splits)
qed

lemma print_reply_ok:
  "book_ok (snd (snd r)) \<Longrightarrow> print_reply r = Continue out book' \<Longrightarrow> book_ok book'"
  by (auto simp: print_reply_def split: prod.splits)

lemma main_step_ok:
  assumes "book_ok book" "main_step today book user_input = Continue out book'"
  shows "book_ok book'"
proof (cases "parse_input user_input")
  case (Inl e)
  then show ?thesis using assms(2) by (simp add: main_step_def)
next
  case (Inr ca)
  obtain command args where ca: "ca = (command, args)" by (cases ca)
  note branches = main_add_ok [OF assms(1)] main_change_ok [OF assms(1)]
    main_phone_ok [OF assms(1)]
    print_reply_ok [OF add_birthday_ok [OF assms(1)]]
    print_reply_ok [OF show_birthday_ok [OF assms(1)]]
    print_reply_ok [OF birthdays_ok [OF assms(1)]]
  from assms(2) show ?thesis
    unfolding main_step_def Inr ca
    using assms(1) branches
    by (auto simp: invalid_args_def split: if_splits)
qed

lemma main_loop_ok:
  "book_ok book \<Longrightarrow> main_loop today book inputs printed = Saved out book' \<Longrightarrow> book_ok book'"
proof (induction inputs arbitrary: book printed)
  case Nil
  then show ?case by simp
next
  case (Cons user_input inputs)
  show ?case
  proof (cases "main_step today book user_input")
    case (Continue lines b)
    then have "book_ok b" using Cons.prems(1) main_step_ok by blast
    then show ?thesis using Cons.IH Cons.prems(2) Continue by simp
  next
    case (Break lines)
    then show ?thesis using Cons.prems by simp
  next
    case (Uncaught e)
    then show ?thesis using Cons.prems by simp
  qed
qed

section \<open>Properties\<close>

subsection \<open>The weekend shift at the end of a month\<close>

text \<open>
  C1. A birthday on a Saturday that is the last day of its month, inside the window,
  should be moved to the Monday in the next month. Here today is Monday 26.08.2024 and
  the birthday is 31.08: the candidate 31.08.2024 is a valid date, a Saturday, the last
  day of August and five days ahead, and the call raises ValueError, because the shift
  asks for the 33rd of August.
\<close>

theorem last_day_saturday_raises:
  "datetime_date 2024 8 31 = Inr \<lparr>year = 2024, month = 8, day = 31\<rparr> \<and>
   weekday \<lparr>year = 2024, month = 8, day = 31\<rparr> = 5 \<and>
   days_in_month 2024 8 = 31 \<and>
   date_sub_days \<lparr>year = 2024, month = 8, day = 31\<rparr> \<lparr>year = 2024, month = 8, day = 26\<rparr> = 5 \<and>
   fst (get_upcoming_birthdays \<lparr>year = 2024, month = 8, day = 26\<rparr>
          [(''Anna'', \<lparr>name = ''Anna'', phones = [''1234567890''],
                       birthday = Some \<lparr>year = 1990, month = 8, day = 31\<rparr>\<rparr>)])
     = Inl ValueError"
  by code_simp

subsection \<open>Exceptions that leave the main loop\<close>

text \<open>
  C2. Every error of a command should be caught and the loop go on. The branch \<open>add\<close>
  builds the phone with no handler around it: on the input \<open>add Bob 12345\<close> the
  ValueError of \<open>Phone\<close> leaves \<open>main\<close>, and the command \<open>exit\<close> after it is never read.
\<close>

theorem add_with_short_phone_crashes:
  "main \<lparr>year = 2024, month = 6, day = 10\<rparr> [] [''add Bob 12345'', ''exit'']
     = Crashed [''Welcome to the assistant bot!''] ValueError"
  by code_simp

subsection \<open>The window of seven days\<close>

text \<open>
  C3, as stated, fails: a record whose candidate is today is not included when the call
  raises. Here today is 12.06.2023, Anna's birthday is 12.06 (zero days ahead) and Zed's
  is 29.02, a date that 2023 does not have.
\<close>

theorem in_window_not_included:
  "valid_date \<lparr>year = 2023, month = 6, day = 12\<rparr> \<and>
   date_sub_days (candidate \<lparr>year = 2023, month = 6, day = 12\<rparr>
                    \<lparr>year = 1990, month = 6, day = 12\<rparr>)
     \<lparr>year = 2023, month = 6, day = 12\<rparr> = 0 \<and>
   fst (get_upcoming_birthdays \<lparr>year = 2023, month = 6, day = 12\<rparr>
     [(''Anna'', \<lparr>name = ''Anna'', phones = [''1234567890''],
                  birthday = Some \<lparr>year = 1990, month = 6, day = 12\<rparr>\<rparr>),
      (''Zed'', \<lparr>name = ''Zed'', phones = [''1234567890''],
                 birthday = Some \<lparr>year = 2000, month = 2, day = 29\<rparr>\<rparr>)])
     = Inl ValueError"
  by code_simp

text \<open>
  C3, amended. Whenever \<open>get_upcoming_birthdays\<close> returns a list, the names in it are, in
  the order of the book, the names of the records that have a birthday whose candidate
  \<open>date(today.year, birthday.month, birthday.day)\<close> satisfies
  \<open>0 \<le> (candidate - today).days < 7\<close>: a candidate before today is left out, with no
  move to the next year, a candidate seven or more days ahead is left out, and a candidate
  equal to today is included.
\<close>

theorem upcoming_window:
  assumes "valid_date today"
    and "fst (get_upcoming_birthdays today book) = Inr res"
  shows "map info_name res =
         map name (filter (\<lambda>user. case birthday user of
                       None \<Rightarrow> False
                     | Some b \<Rightarrow> 0 \<le> date_sub_days (candidate today b) today \<and>
                                date_sub_days (candidate today b) today < 7)
                    (values_book book))"
proof -
  from assms(2) have "upcoming_loop today (values_book book) [] = Inr res"
    by (simp add: get_upcoming_birthdays_eq)
  then have "res = List.map_filter (expected_entry today) (values_book book)"
    using upcoming_loop_spec [OF assms(1)] by fastforce
  then show ?thesis by (simp only: expected_names)
qed

theorem upcoming_window_witness:
  "valid_date \<lparr>year = 2024, month = 6, day = 10\<rparr> \<and>
   fst (get_upcoming_birthdays \<lparr>year = 2024, month = 6, day = 10\<rparr>
     [(''Anna'', \<lparr>name = ''Anna'', phones = [''1234567890''],
                  birthday = Some \<lparr>year = 1990, month = 6, day = 15\<rparr>\<rparr>),
      (''Bob'', \<lparr>name = ''Bob'', phones = [''1234567890''],
                 birthday = Some \<lparr>year = 1990, month = 6, day = 1\<rparr>\<rparr>),
      (''Cara'', \<lparr>name = ''Cara'', phones = [''1234567890''],
                  birthday = Some \<lparr>year = 1990, month = 6, day = 20\<rparr>\<rparr>),
      (''Dan'', \<lparr>name = ''Dan'', phones = [''1234567890''],
                 birthday = Some \<lparr>year = 1985, month = 6, day = 10\<rparr>\<rparr>),
      (''Eve'', \<lparr>name = ''Eve'', phones = [''1234567890''], birthday = None\<rparr>)])
     = Inr [\<lparr>info_name = ''Anna'', congratulation_date = ''17.06.2024''\<rparr>,
            \<lparr>info_name = ''Dan'', congratulation_date = ''10.06.2024''\<rparr>] \<and>
   map name (filter (\<lambda>user. case birthday user of
                 None \<Rightarrow> False
               | Some b \<Rightarrow>
                   0 \<le> date_sub_days (candidate \<lparr>year = 2024, month = 6, day = 10\<rparr> b)
                         \<lparr>year = 2024, month = 6, day = 10\<rparr> \<and>
                   date_sub_days (candidate \<lparr>year = 2024, month = 6, day = 10\<rparr> b)
                         \<lparr>year = 2024, month = 6, day = 10\<rparr> < 7)
     (values_book
       [(''Anna'', \<lparr>name = ''Anna'', phones = [''1234567890''],
                    birthday = Some \<lparr>year = 1990, month = 6, day = 15\<rparr>\<rparr>),
        (''Bob'', \<lparr>name = ''Bob'', phones = [''1234567890''],
                   birthday = Some \<lparr>year = 1990, month = 6, day = 1\<rparr>\<rparr>),
        (''Cara'', \<lparr>name = ''Cara'', phones = [''1234567890''],
                    birthday = Some \<lparr>year = 1990, month = 6, day = 20\<rparr>\<rparr>),
        (''Dan'', \<lparr>name = ''Dan'', phones = [''1234567890''],
                   birthday = Some \<lparr>year = 1985, month = 6, day = 10\<rparr>\<rparr>),
        (''Eve'', \<lparr>name = ''Eve'', phones = [''1234567890''], birthday = None\<rparr>)]))
     = [''Anna'', ''Dan'']"
proof -
  let ?today = "\<lparr>year = 2024, month = 6, day = 10\<rparr>"
  let ?book = "[(''Anna'', \<lparr>name = ''Anna'', phones = [''1234567890''],
                  birthday = Some \<lparr>year = 1990, month = 6, day = 15\<rparr>\<rparr>),
      (''Bob'', \<lparr>name = ''Bob'', phones = [''1234567890''],
                 birthday = Some \<lparr>year = 1990, month = 6, day = 1\<rparr>\<rparr>),
      (''Cara'', \<lparr>name = ''Cara'', phones = [''1234567890''],
                  birthday = Some \<lparr>year = 1990, month = 6, day = 20\<rparr>\<rparr>),
      (''Dan'', \<lparr>name = ''Dan'', phones = [''1234567890''],
                 birthday = Some \<lparr>year = 1985, month = 6, day = 10\<rparr>\<rparr>),
      (''Eve'', \<lparr>name = ''Eve'', phones = [''1234567890''], birthday = None\<rparr>)]"
  let ?res = "[\<lparr>info_name = ''Anna'', congratulation_date = ''17.06.2024''\<rparr>,
            \<lparr>info_name = ''Dan'', congratulation_date = ''10.06.2024''\<rparr>]"
  have v: "valid_date ?today" by code_simp
  have r: "fst (get_upcoming_birthdays ?today ?book) = Inr ?res" by code_simp
  have n: "map info_name ?res = [''Anna'', ''Dan'']" by simp
  show ?thesis
    using upcoming_window [OF v r] v r n by (simp only:)
qed

subsection \<open>The congratulation date\<close>




subsection \<open>A birthday on 29 February\<close>

text \<open>
  C5. When some record of the book has its birthday on 29 February and the year of today
  is not a leap year, \<open>get_upcoming_birthdays\<close> raises ValueError, whatever else the book
  holds; it returns no list.
\<close>

theorem feb29_raises:
  assumes "user \<in> set (values_book book)"
    and "birthday user = Some b" and "month b = 2" and "day b = 29"
    and "\<not> is_leap (year today)"
  shows "fst (get_upcoming_birthdays today book) = Inl ValueError"
  using upcoming_loop_raises [OF assms(1) feb29_step [OF assms(2-5)]]
  by (simp add: get_upcoming_birthdays_eq)

theorem feb29_raises_witness:
  "\<lparr>name = ''Anna'', phones = [''1234567890''],
     birthday = Some \<lparr>year = 2000, month = 2, day = 29\<rparr>\<rparr>
     \<in> set (values_book
         [(''Bob'', \<lparr>name = ''Bob'', phones = [], birthday = None\<rparr>),
          (''Anna'', \<lparr>name = ''Anna'', phones = [''1234567890''],
                      birthday = Some \<lparr>year = 2000, month = 2, day = 29\<rparr>\<rparr>)]) \<and>
   \<not> is_leap 2023 \<and>
   fst (get_upcoming_birthdays \<lparr>year = 2023, month = 2, day = 27\<rparr>
         [(''Bob'', \<lparr>name = ''Bob'', phones = [], birthday = None\<rparr>),
          (''Anna'', \<lparr>name = ''Anna'', phones = [''1234567890''],
                      birthday = Some \<lparr>year = 2000, month = 2, day = 29\<rparr>\<rparr>)])
     = Inl ValueError"
proof -
  let ?anna = "\<lparr>name = ''Anna'', phones = [''1234567890''],
     birthday = Some \<lparr>year = 2000, month = 2, day = 29\<rparr>\<rparr>"
  let ?book = "[(''Bob'', \<lparr>name = ''Bob'', phones = [], birthday = None\<rparr>), (''Anna'', ?anna)]"
  have m: "?anna \<in> set (values_book ?book)" by (simp add: values_book_def)
  have l: "\<not> is_leap (year \<lparr>year = 2023, month = 2, day = 27\<rparr>)" by (simp add: is_leap_def)
  have "fst (get_upcoming_birthdays \<lparr>year = 2023, month = 2, day = 27\<rparr> ?book) = Inl ValueError"
    using feb29_raises [OF m _ _ _ l, of "\<lparr>year = 2000, month = 2, day = 29\<rparr>"] by simp
  then show ?thesis using m l by simp
qed

subsection \<open>Phones\<close>

text \<open>
  C6, as stated, fails: \<open>str.isdigit\<close> accepts the superscript digits, which are not
  decimal digits and which \<open>\d\<close> does not match. The phone made of ten characters U+00B2
  is accepted by \<open>Phone\<close>, and the command \<open>add\<close> stores it.
\<close>

theorem superscript_phone_accepted:
  "Phone 
     [CHR 0xB2, CHR 0xB2, CHR 0xB2, CHR 0xB2, CHR 0xB2, CHR 0xB2, CHR 0xB2, CHR 0xB2, CHR 0xB2, CHR 0xB2] = Inr 
     [CHR 0xB2, CHR 0xB2, CHR 0xB2, CHR 0xB2, CHR 0xB2, CHR 0xB2, CHR 0xB2, CHR 0xB2, CHR 0xB2, CHR 0xB2] \<and>
   \<not> ten_decimal_digits 
     [CHR 0xB2, CHR 0xB2, CHR 0xB2, CHR 0xB2, CHR 0xB2, CHR 0xB2, CHR 0xB2, CHR 0xB2, CHR 0xB2, CHR 0xB2] \<and>
   main_step \<lparr>year = 2024, month = 6, day = 10\<rparr> [] (''add Bob '' @ 
     [CHR 0xB2, CHR 0xB2, CHR 0xB2, CHR 0xB2, CHR 0xB2, CHR 0xB2, CHR 0xB2, CHR 0xB2, CHR 0xB2, CHR 0xB2])
     = Continue [''Added new contact: Bob - '' @ 
     [CHR 0xB2, CHR 0xB2, CHR 0xB2, CHR 0xB2, CHR 0xB2, CHR 0xB2, CHR 0xB2, CHR 0xB2, CHR 0xB2, CHR 0xB2]]
         [(''Bob'', \<lparr>name = ''Bob'', phones = [
     [CHR 0xB2, CHR 0xB2, CHR 0xB2, CHR 0xB2, CHR 0xB2, CHR 0xB2, CHR 0xB2, CHR 0xB2, CHR 0xB2, CHR 0xB2]], birthday = None\<rparr>)]"
  by code_simp

text \<open>
  C6, amended. \<open>Phone\<close> succeeds exactly on the texts of ten characters that
  \<open>str.isdigit\<close> accepts one by one, and raises ValueError on every other text; ten
  decimal digits are among the accepted, \<open>12345\<close> is refused and \<open>1234567890\<close> accepted.
  \<open>add_phone\<close> and \<open>edit_phone\<close> keep every phone of a record of this form, and so does
  every round of the main loop and every run of \<open>main\<close> that ends with the book saved.
\<close>

theorem phone_validation:
  "(Phone p = Inr p \<longleftrightarrow> phone_ok p) \<and>
   (Phone p = Inl ValueError \<longleftrightarrow> \<not> phone_ok p) \<and>
   (ten_decimal_digits p \<longrightarrow> Phone p = Inr p) \<and>
   Phone ''12345'' = Inl ValueError \<and>
   Phone ''1234567890'' = Inr ''1234567890'' \<and>
   (record_ok r \<and> add_phone p r = Inr r' \<longrightarrow> record_ok r') \<and>
   (record_ok r \<and> edit_phone old_phone new_phone r = Inr r' \<longrightarrow> record_ok r') \<and>
   (book_ok book \<and> main_step today book user_input = Continue out book' \<longrightarrow> book_ok book') \<and>
   (book_ok book \<and> main today book inputs = Saved out book' \<longrightarrow> book_ok book')"
proof -
  have "ten_decimal_digits p \<Longrightarrow> phone_ok p"
    by (auto simp: ten_decimal_digits_def phone_ok_def isdecimal_char_def isdigit_char_def
          Let_def list_all_iff)
  moreover have "Phone ''12345'' = Inl ValueError" by (simp add: Phone_def)
  moreover have "Phone ''1234567890'' = Inr ''1234567890''" by code_simp
  moreover have "book_ok book \<and> main today book inputs = Saved out book' \<longrightarrow> book_ok book'"
    unfolding main_def using main_loop_ok by blast
  moreover have
    "book_ok book \<and> main_step today book user_input = Continue out book' \<longrightarrow> book_ok book'"
    using main_step_ok by blast
  moreover have "record_ok r \<and> add_phone p r = Inr r' \<longrightarrow> record_ok r'"
    using add_phone_ok by blast
  moreover have "record_ok r \<and> edit_phone old_phone new_phone r = Inr r' \<longrightarrow> record_ok r'"
    using edit_phone_ok by blast
  ultimately show ?thesis
    by (simp add: Phone_iff Phone_Inl_iff)
qed

theorem phone_validation_witness:
  "Phone ''0987654321'' = Inr ''0987654321'' \<and>
   phone_ok ''0987654321'' \<and>
   book_ok [] \<and>
   main \<lparr>year = 2024, month = 6, day = 10\<rparr> []
     [''add Bob 1234567890'', ''change Bob 0987654321'', ''exit'']
     = Saved [''Welcome to the assistant bot!'', ''Added new contact: Bob - 1234567890'',
              ''Phone number changed for Bob.'', ''Good bye!'']
         [(''Bob'', \<lparr>name = ''Bob'', phones = [''0987654321''], birthday = None\<rparr>)] \<and>
   book_ok [(''Bob'', \<lparr>name = ''Bob'', phones = [''0987654321''], birthday = None\<rparr>)]"
proof -
  let ?today = "\<lparr>year = 2024, month = 6, day = 10\<rparr>"
  let ?inputs = "[''add Bob 1234567890'', ''change Bob 0987654321'', ''exit'']"
  let ?out = "[''Welcome to the assistant bot!'', ''Added new contact: Bob - 1234567890'',
              ''Phone number changed for Bob.'', ''Good bye!'']"
  let ?book' = "[(''Bob'', \<lparr>name = ''Bob'', phones = [''0987654321''], birthday = None\<rparr>)]"
  have p: "Phone ''0987654321'' = Inr ''0987654321''" by code_simp
  have b: "book_ok []" by (simp add: book_ok_def values_book_def)
  have m: "main ?today [] ?inputs = Saved ?out ?book'" by code_simp
  note v = phone_validation [where p = "''0987654321''" and book = "[]" and today = ?today
      and inputs = ?inputs and out = ?out and book' = ?book']
  from v p have "phone_ok ''0987654321''" by blast
  moreover from v b m have "book_ok ?book'" by blast
  ultimately show ?thesis using p b m by (simp only:)
qed

subsection \<open>Reading the upcoming birthdays changes nothing\<close>

text \<open>
  C7. \<open>get_upcoming_birthdays\<close> only reads. The call runs on a frame that holds the
  dictionary of the book beside its local variables; every round assigns to the locals
  only, so the dictionary of the frame after the last round, whether the call returns or
  raises, is the book before the call, with the same records and the same name, phones
  and birthday in each.
\<close>

theorem get_upcoming_birthdays_pure:
  "snd (get_upcoming_birthdays today book) = book"
proof -
  let ?st = "\<lparr>self_data = book, local_upcoming_birthdays = [], local_birthday_this_year = None\<rparr>"
  obtain r st' where r: "upcoming_rounds today [0..<length book] ?st = (r, st')"
    by (cases "upcoming_rounds today [0..<length book] ?st")
  have "self_data st' = book"
    using upcoming_rounds_frame [of today "[0..<length book]" ?st] r by simp
  then show ?thesis
    using r by (cases r) (simp_all add: get_upcoming_birthdays_def)
qed

subsection \<open>The command \<open>birthdays\<close>\<close>

text \<open>
  C9, as stated, fails: in a book where a record qualifies the handler returns neither
  the message of an entry nor \<open>No upcoming birthdays.\<close> when the call raises. Here today
  is 12.06.2023, Anna's birthday is 12.06 and Zed's is 29.02: Anna qualifies, the call
  raises ValueError, and the decorator turns it into its text for ValueError.
\<close>

theorem qualifying_record_gets_error_text:
  "qualifying \<lparr>year = 2023, month = 6, day = 12\<rparr>
     \<lparr>name = ''Anna'', phones = [''1234567890''],
        birthday = Some \<lparr>year = 1990, month = 6, day = 12\<rparr>\<rparr>
     = Some \<lparr>year = 2023, month = 6, day = 12\<rparr> \<and>
   birthdays \<lparr>year = 2023, month = 6, day = 12\<rparr> []
     [(''Anna'', \<lparr>name = ''Anna'', phones = [''1234567890''],
                  birthday = Some \<lparr>year = 1990, month = 6, day = 12\<rparr>\<rparr>),
      (''Zed'', \<lparr>name = ''Zed'', phones = [''1234567890''],
                 birthday = Some \<lparr>year = 2000, month = 2, day = 29\<rparr>\<rparr>)]
     = ([], ''Give me name and phone please.'',
        [(''Anna'', \<lparr>name = ''Anna'', phones = [''1234567890''],
                     birthday = Some \<lparr>year = 1990, month = 6, day = 12\<rparr>\<rparr>),
         (''Zed'', \<lparr>name = ''Zed'', phones = [''1234567890''],
                    birthday = Some \<lparr>year = 2000, month = 2, day = 29\<rparr>\<rparr>)])"
  by code_simp

text \<open>
  C9, amended. When \<open>get_upcoming_birthdays\<close> returns a list that is not empty, the
  handler \<open>birthdays\<close> prints the heading and returns the message of the first entry
  alone, however many entries follow. When the list is empty it returns
  \<open>No upcoming birthdays.\<close>; it returns that text in no other case, and then no record of
  the book qualifies. When the call raises, the exception is a ValueError and the handler
  returns \<open>Give me name and phone please.\<close>, whether records qualify or not. The book is
  the same after the handler in every case.
\<close>

theorem birthdays_first_entry:
  "(fst (get_upcoming_birthdays today book) = Inr (e # es) \<longrightarrow>
      birthdays today args book =
        ([''Upcoming birthdays:''],
         ''The congratulation date for '' @ info_name e @ '' is '' @ congratulation_date e,
         book)) \<and>
   (fst (get_upcoming_birthdays today book) = Inr [] \<longrightarrow>
      birthdays today args book = ([], ''No upcoming birthdays.'', book)) \<and>
   (fst (get_upcoming_birthdays today book) = Inl err \<longrightarrow>
      err = ValueError \<and>
      birthdays today args book = ([], ''Give me name and phone please.'', book)) \<and>
   (fst (snd (birthdays today args book)) = ''No upcoming birthdays.'' \<longrightarrow>
      fst (get_upcoming_birthdays today book) = Inr []) \<and>
   (valid_date today \<and> fst (snd (birthdays today args book)) = ''No upcoming birthdays.'' \<longrightarrow>
      list_all (\<lambda>user. qualifying today user = None) (values_book book))"
proof -
  have cases: "(fst (get_upcoming_birthdays today book) = Inr (e # es) \<longrightarrow>
      birthdays today args book =
        ([''Upcoming birthdays:''],
         ''The congratulation date for '' @ info_name e @ '' is '' @ congratulation_date e,
         book)) \<and>
   (fst (get_upcoming_birthdays today book) = Inr [] \<longrightarrow>
      birthdays today args book = ([], ''No upcoming birthdays.'', book)) \<and>
   (fst (get_upcoming_birthdays today book) = Inl err \<longrightarrow>
      err = ValueError \<and>
      birthdays today args book = ([], ''Give me name and phone please.'', book)) \<and>
   (fst (snd (birthdays today args book)) = ''No upcoming birthdays.'' \<longrightarrow>
      fst (get_upcoming_birthdays today book) = Inr [])"
  proof (cases "upcoming_loop today (values_book book) []")
    case (Inl x)
    then have "x = ValueError" by (rule upcoming_loop_error)
    with Inl show ?thesis
      by (simp add: birthdays_def input_error_def birthdays_func_def get_upcoming_birthdays_eq)
  next
    case (Inr res)
    then show ?thesis
      by (cases res)
         (simp_all add: birthdays_def input_error_def birthdays_func_def get_upcoming_birthdays_eq)
  qed
  have "list_all (\<lambda>user. qualifying today user = None) (values_book book)"
    if v: "valid_date today"
      and t: "fst (snd (birthdays today args book)) = ''No upcoming birthdays.''"
  proof -
    from cases t have "fst (get_upcoming_birthdays today book) = Inr []" by blast
    then have "upcoming_loop today (values_book book) [] = Inr []"
      by (simp add: get_upcoming_birthdays_eq)
    then have "List.map_filter (expected_entry today) (values_book book) = []"
      using upcoming_loop_spec [OF v] by fastforce
    then show ?thesis by (rule no_expected_entries)
  qed
  with cases show ?thesis by blast
qed

theorem birthdays_first_entry_witness:
  "valid_date \<lparr>year = 2023, month = 6, day = 10\<rparr> \<and>
   fst (get_upcoming_birthdays \<lparr>year = 2023, month = 6, day = 10\<rparr>
     [(''Anna'', \<lparr>name = ''Anna'', phones = [''1234567890''],
                  birthday = Some \<lparr>year = 1990, month = 6, day = 15\<rparr>\<rparr>),
      (''Dan'', \<lparr>name = ''Dan'', phones = [''1234567890''],
                 birthday = Some \<lparr>year = 1985, month = 6, day = 10\<rparr>\<rparr>)])
     = Inr [\<lparr>info_name = ''Anna'', congratulation_date = ''15.06.2023''\<rparr>,
            \<lparr>info_name = ''Dan'', congratulation_date = ''12.06.2023''\<rparr>] \<and>
   birthdays \<lparr>year = 2023, month = 6, day = 10\<rparr> []
     [(''Anna'', \<lparr>name = ''Anna'', phones = [''1234567890''],
                  birthday = Some \<lparr>year = 1990, month = 6, day = 15\<rparr>\<rparr>),
      (''Dan'', \<lparr>name = ''Dan'', phones = [''1234567890''],
                 birthday = Some \<lparr>year = 1985, month = 6, day = 10\<rparr>\<rparr>)]
     = ([''Upcoming birthdays:''], ''The congratulation date for Anna is 15.06.2023'',
        [(''Anna'', \<lparr>name = ''Anna'', phones = [''1234567890''],
                  birthday = Some \<lparr>year = 1990, month = 6, day = 15\<rparr>\<rparr>),
      (''Dan'', \<lparr>name = ''Dan'', phones = [''1234567890''],
                 birthday = Some \<lparr>year = 1985, month = 6, day = 10\<rparr>\<rparr>)]) \<and>
   fst (get_upcoming_birthdays \<lparr>year = 2023, month = 6, day = 10\<rparr>
     [(''Bob'', \<lparr>name = ''Bob'', phones = [''1234567890''],
                 birthday = Some \<lparr>year = 1990, month = 6, day = 1\<rparr>\<rparr>)]) = Inr [] \<and>
   birthdays \<lparr>year = 2023, month = 6, day = 10\<rparr> []
     [(''Bob'', \<lparr>name = ''Bob'', phones = [''1234567890''],
                 birthday = Some \<lparr>year = 1990, month = 6, day = 1\<rparr>\<rparr>)]
     = ([], ''No upcoming birthdays.'',
        [(''Bob'', \<lparr>name = ''Bob'', phones = [''1234567890''],
                 birthday = Some \<lparr>year = 1990, month = 6, day = 1\<rparr>\<rparr>)]) \<and>
   list_all (\<lambda>user. qualifying \<lparr>year = 2023, month = 6, day = 10\<rparr> user = None)
     (values_book
        [(''Bob'', \<lparr>name = ''Bob'', phones = [''1234567890''],
                 birthday = Some \<lparr>year = 1990, month = 6, day = 1\<rparr>\<rparr>)]) \<and>
   fst (get_upcoming_birthdays \<lparr>year = 2023, month = 6, day = 10\<rparr>
     [(''Dan'', \<lparr>name = ''Dan'', phones = [''1234567890''],
                 birthday = Some \<lparr>year = 1985, month = 6, day = 10\<rparr>\<rparr>),
      (''Zed'', \<lparr>name = ''Zed'', phones = [''1234567890''],
                 birthday = Some \<lparr>year = 2000, month = 2, day = 29\<rparr>\<rparr>)]) = Inl ValueError \<and>
   birthdays \<lparr>year = 2023, month = 6, day = 10\<rparr> []
     [(''Dan'', \<lparr>name = ''Dan'', phones = [''1234567890''],
                 birthday = Some \<lparr>year = 1985, month = 6, day = 10\<rparr>\<rparr>),
      (''Zed'', \<lparr>name = ''Zed'', phones = [''1234567890''],
                 birthday = Some \<lparr>year = 2000, month = 2, day = 29\<rparr>\<rparr>)]
     = ([], ''Give me name and phone please.'',
        [(''Dan'', \<lparr>name = ''Dan'', phones = [''1234567890''],
                 birthday = Some \<lparr>year = 1985, month = 6, day = 10\<rparr>\<rparr>),
      (''Zed'', \<lparr>name = ''Zed'', phones = [''1234567890''],
                 birthday = Some \<lparr>year = 2000, month = 2, day = 29\<rparr>\<rparr>)])"
proof -
  let ?today = "\<lparr>year = 2023, month = 6, day = 10\<rparr>"
  let ?two = "[(''Anna'', \<lparr>name = ''Anna'', phones = [''1234567890''],
                  birthday = Some \<lparr>year = 1990, month = 6, day = 15\<rparr>\<rparr>),
      (''Dan'', \<lparr>name = ''Dan'', phones = [''1234567890''],
                 birthday = Some \<lparr>year = 1985, month = 6, day = 10\<rparr>\<rparr>)]"
  let ?none = "[(''Bob'', \<lparr>name = ''Bob'', phones = [''1234567890''],
                 birthday = Some \<lparr>year = 1990, month = 6, day = 1\<rparr>\<rparr>)]"
  let ?bad = "[(''Dan'', \<lparr>name = ''Dan'', phones = [''1234567890''],
                 birthday = Some \<lparr>year = 1985, month = 6, day = 10\<rparr>\<rparr>),
      (''Zed'', \<lparr>name = ''Zed'', phones = [''1234567890''],
                 birthday = Some \<lparr>year = 2000, month = 2, day = 29\<rparr>\<rparr>)]"
  have v: "valid_date ?today" by code_simp
  have r2: "fst (get_upcoming_birthdays ?today ?two)
     = Inr [\<lparr>info_name = ''Anna'', congratulation_date = ''15.06.2023''\<rparr>,
            \<lparr>info_name = ''Dan'', congratulation_date = ''12.06.2023''\<rparr>]" by code_simp
  have r0: "fst (get_upcoming_birthdays ?today ?none) = Inr []" by code_simp
  have re: "fst (get_upcoming_birthdays ?today ?bad) = Inl ValueError" by code_simp
  have b2: "birthdays ?today [] ?two =
      ([''Upcoming birthdays:''], ''The congratulation date for Anna is 15.06.2023'', ?two)"
    using birthdays_first_entry [where today = ?today and book = ?two and args = "[]"] r2
    by simp
  have b0: "birthdays ?today [] ?none = ([], ''No upcoming birthdays.'', ?none)"
    using birthdays_first_entry [where today = ?today and book = ?none and args = "[]"] r0
    by simp
  have q0: "list_all (\<lambda>user. qualifying ?today user = None) (values_book ?none)"
    using birthdays_first_entry [where today = ?today and book = ?none and args = "[]"] v b0
    by simp
  have be: "birthdays ?today [] ?bad = ([], ''Give me name and phone please.'', ?bad)"
    using birthdays_first_entry [where today = ?today and book = ?bad and args = "[]"
        and err = ValueError] re
    by simp
  show ?thesis using v r2 r0 re b2 b0 q0 be by (simp only:)
qed

subsection \<open>Adding a name that the book already has\<close>

text \<open>
  C10, as stated, fails: the command \<open>add\<close> with a name of the book and a phone that
  \<open>Phone\<close> refuses replaces nothing. On \<open>add Bob 12345\<close> the ValueError of \<open>Phone\<close> is
  raised before \<open>add_record\<close> is reached: the book still finds Bob's old record with its
  phones and birthday, and the run ends without saving.
\<close>

theorem add_refused_phone_keeps_record:
  "find_book ''Bob''
     [(''Bob'', \<lparr>name = ''Bob'', phones = [''1234567890'', ''5555555555''],
                 birthday = Some \<lparr>year = 1990, month = 6, day = 1\<rparr>\<rparr>)]
     = Some \<lparr>name = ''Bob'', phones = [''1234567890'', ''5555555555''],
              birthday = Some \<lparr>year = 1990, month = 6, day = 1\<rparr>\<rparr> \<and>
   Phone ''12345'' = Inl ValueError \<and>
   main_step \<lparr>year = 2024, month = 6, day = 10\<rparr>
     [(''Bob'', \<lparr>name = ''Bob'', phones = [''1234567890'', ''5555555555''],
                 birthday = Some \<lparr>year = 1990, month = 6, day = 1\<rparr>\<rparr>)]
     ''add Bob 12345'' = Uncaught ValueError \<and>
   main \<lparr>year = 2024, month = 6, day = 10\<rparr>
     [(''Bob'', \<lparr>name = ''Bob'', phones = [''1234567890'', ''5555555555''],
                 birthday = Some \<lparr>year = 1990, month = 6, day = 1\<rparr>\<rparr>)]
     [''add Bob 12345'', ''exit'']
     = Crashed [''Welcome to the assistant bot!''] ValueError"
  by code_simp

text \<open>
  C10, amended. In a book that has a record under the name \<open>n\<close>, the command \<open>add\<close>
  with \<open>n\<close> and a phone that passes the check of \<open>Phone\<close> stores a new record with that
  phone alone and no birthday in the place of the old one: the book finds the new record
  under \<open>n\<close>, the order of the names and the records under every other name stay as they
  were. A call of \<open>add_record\<close> makes the book find the record it is given under the
  record's name, whatever the book held.
\<close>

theorem add_replaces_record:
  assumes "find_book n book = Some old" and "n \<noteq> []"
    and "isdigit phone" and "length phone = 10"
  shows "main_add [n, phone] book =
           Continue [''Added new contact: '' @ n @ '' - '' @ phone]
             (add_record \<lparr>name = n, phones = [phone], birthday = None\<rparr> book) \<and>
         find_book n (add_record \<lparr>name = n, phones = [phone], birthday = None\<rparr> book) =
           Some \<lparr>name = n, phones = [phone], birthday = None\<rparr> \<and>
         map fst (add_record \<lparr>name = n, phones = [phone], birthday = None\<rparr> book) =
           map fst book \<and>
         (\<forall>k. k \<noteq> n \<longrightarrow>
            find_book k (add_record \<lparr>name = n, phones = [phone], birthday = None\<rparr> book) =
            find_book k book) \<and>
         find_book (name r) (add_record r book) = Some r"
proof -
  have "main_add [n, phone] book =
           Continue [''Added new contact: '' @ n @ '' - '' @ phone]
             (add_record \<lparr>name = n, phones = [phone], birthday = None\<rparr> book)"
    using assms(2-4)
    by (simp add: main_add_def Record_init_def Name_def add_phone_def Phone_def)
  moreover have "map fst (add_record \<lparr>name = n, phones = [phone], birthday = None\<rparr> book) =
           map fst book"
    using find_book_key [OF assms(1)] by (simp add: add_record_def keys_setitem)
  ultimately show ?thesis
    by (simp add: add_record_def find_book_def map_of_setitem)
qed

theorem add_replaces_record_witness:
  "find_book ''Bob''
     [(''Bob'', \<lparr>name = ''Bob'', phones = [''1234567890'', ''5555555555''],
                 birthday = Some \<lparr>year = 1990, month = 6, day = 1\<rparr>\<rparr>),
      (''Anna'', \<lparr>name = ''Anna'', phones = [''1111111111''], birthday = None\<rparr>)]
     = Some \<lparr>name = ''Bob'', phones = [''1234567890'', ''5555555555''],
              birthday = Some \<lparr>year = 1990, month = 6, day = 1\<rparr>\<rparr> \<and>
   isdigit ''0987654321'' \<and> length ''0987654321'' = 10 \<and>
   main_step \<lparr>year = 2024, month = 6, day = 10\<rparr>
     [(''Bob'', \<lparr>name = ''Bob'', phones = [''1234567890'', ''5555555555''],
                 birthday = Some \<lparr>year = 1990, month = 6, day = 1\<rparr>\<rparr>),
      (''Anna'', \<lparr>name = ''Anna'', phones = [''1111111111''], birthday = None\<rparr>)]
     ''add Bob 0987654321''
     = Continue [''Added new contact: Bob - 0987654321'']
         [(''Bob'', \<lparr>name = ''Bob'', phones = [''0987654321''], birthday = None\<rparr>),
          (''Anna'', \<lparr>name = ''Anna'', phones = [''1111111111''], birthday = None\<rparr>)]"
proof -
  let ?old = "\<lparr>name = ''Bob'', phones = [''1234567890'', ''5555555555''],
              birthday = Some \<lparr>year = 1990, month = 6, day = 1\<rparr>\<rparr>"
  let ?book = "[(''Bob'', ?old),
      (''Anna'', \<lparr>name = ''Anna'', phones = [''1111111111''], birthday = None\<rparr>)]"
  have f: "find_book ''Bob'' ?book = Some ?old" by (simp add: find_book_def)
  have n: "''Bob'' \<noteq> []" by simp
  have d: "isdigit ''0987654321''" by code_simp
  have l: "length ''0987654321'' = 10" by simp
  have a: "add_record \<lparr>name = ''Bob'', phones = [''0987654321''], birthday = None\<rparr> ?book =
      [(''Bob'', \<lparr>name = ''Bob'', phones = [''0987654321''], birthday = None\<rparr>),
       (''Anna'', \<lparr>name = ''Anna'', phones = [''1111111111''], birthday = None\<rparr>)]"
    by (simp add: add_record_def)
  have p: "parse_input ''add Bob 0987654321'' = Inr (''add'', [''Bob'', ''0987654321''])"
    by code_simp
  have "main_step \<lparr>year = 2024, month = 6, day = 10\<rparr> ?book ''add Bob 0987654321''
          = main_add [''Bob'', ''0987654321''] ?book"
    by (simp add: main_step_def p)
  then show ?thesis
    using add_replaces_record [OF f n d l] f d l a by (simp only:) simp
qed

end
